theory Spec2Isabelle
  imports Main "HOL-Library.Sublist"
begin

section \<open>Syntax tree\<close>

text \<open>
  The type checker of \<^verbatim>\<open>lam4-parser/src/language/type-system\<close> works on a Langium
  syntax tree whose nodes are JavaScript objects: they are compared by reference
  (\<^verbatim>\<open>===\<close>), they point to their container, and cross-references point anywhere in
  the tree. A program is therefore a table of nodes, and a node is named by its index
  in the table. An index outside the table reads as a node of no known kind.
\<close>

type_synonym nid = nat

text \<open>A Langium \<^verbatim>\<open>Reference\<close>: the target when linking succeeded, the reference text,
  and the message of the linking error when there is one.\<close>

datatype Reference = Reference (ref: "nid option") (refText: string) (linkError: "string option")

text \<open>The three annotations of a \<^verbatim>\<open>BuiltinType\<close>.\<close>

datatype BuiltinAnnot = AnnotString | AnnotInteger | AnnotBoolean

text \<open>An operator node carries its \<^verbatim>\<open>$type\<close>. The generated \<^verbatim>\<open>isComparisonOp\<close> is
  a reflection test on that node; the constructor records its answer.\<close>

datatype Op = ComparisonOp (opType: string) | OtherOp (opType: string)

datatype AstNode =
    Ref Reference
  | Join nid nid
  | StringLiteral string
  | BooleanLiteral bool
  | NumberLiteral int
  | VarDecl "nid option" "nid option"
  | Param string nid
  | ParamTypePair nid nid
  | BuiltinType BuiltinAnnot
  | CustomTypeDef Reference
  | OtherTypeAnnot
  | SigDecl string "Reference list" "nid list"
  | Relation string nid nid
  | BinExpr Op nid nid
  | FunDecl "nid list" "nid list" nid
  | FunctionApplication nid "nid list"
  | PredicateDecl "nid list" nid
  | IfThenElseExpr nid nid nid
  | OtherNode

text \<open>
  Fields, in the order of the constructor arguments:
  \<^verbatim>\<open>Ref value\<close>; \<^verbatim>\<open>Join left right\<close>; \<^verbatim>\<open>VarDecl varType value\<close>;
  \<^verbatim>\<open>Param name $container\<close>; \<^verbatim>\<open>ParamTypePair param type\<close>; \<^verbatim>\<open>BuiltinType annot\<close>;
  \<^verbatim>\<open>CustomTypeDef annot\<close>; \<^verbatim>\<open>SigDecl name parents relations\<close>;
  \<^verbatim>\<open>Relation name $container relatum\<close>; \<^verbatim>\<open>BinExpr op left right\<close>;
  \<^verbatim>\<open>FunDecl types params body\<close>; \<^verbatim>\<open>FunctionApplication func args\<close>;
  \<^verbatim>\<open>PredicateDecl params body\<close>; \<^verbatim>\<open>IfThenElseExpr condition then else\<close>.
  \<^verbatim>\<open>OtherTypeAnnot\<close> is a type annotation that is neither builtin nor custom, and
  \<^verbatim>\<open>OtherNode\<close> any node kind the checker has no rule for.
\<close>

type_synonym prog = "AstNode list"

definition nodeAt :: "prog \<Rightarrow> nid \<Rightarrow> AstNode" where
  "nodeAt P n = (if n < length P then P ! n else OtherNode)"

text \<open>The \<^verbatim>\<open>name\<close> property of a node; nodes without one read \<^verbatim>\<open>undefined\<close>.\<close>

definition nodeName :: "prog \<Rightarrow> nid \<Rightarrow> string option" where
  "nodeName P n =
     (case nodeAt P n of
        Param name _ \<Rightarrow> Some name
      | SigDecl name _ _ \<Rightarrow> Some name
      | Relation name _ _ \<Rightarrow> Some name
      | _ \<Rightarrow> None)"

text \<open>What a template literal prints for a possibly undefined string.\<close>

definition showOpt :: "string option \<Rightarrow> string" where
  "showOpt s = (case s of None \<Rightarrow> ''undefined'' | Some x \<Rightarrow> x)"

section \<open>Type tags (type-tags.ts)\<close>

text \<open>
  One constructor per class implementing \<^verbatim>\<open>TypeTag\<close>, with the fields of the class.
  \<^verbatim>\<open>FunctionParameter\<close> is the pair of the parameter node and its type.
  \<^verbatim>\<open>RelationTTag.sameTypeAs\<close> compares the tag objects by reference, so a relation tag
  carries the identity of its object (its first argument), given out by the allocation
  counter of the heap below. Its other arguments are \<^verbatim>\<open>relationNode\<close>, \<^verbatim>\<open>parentSig\<close> and
  the relatum type; \<^verbatim>\<open>relationType\<close> is the pair of \<^verbatim>\<open>SigTTag parentSig\<close> and the
  relatum type.
\<close>

datatype TypeTag =
    BooleanTTag "nid option"
  | StringTTag "nid option"
  | IntegerTTag "nid option"
  | UnitTTag
  | FunctionTTag "(nid \<times> TypeTag) list" TypeTag
  | PredicateTTag "(nid \<times> TypeTag) list"
  | SigTTag nid
  | RelationTTag nat nid nid TypeTag
  | ErrorTypeTag "nid option" string

fun isBooleanTTag :: "TypeTag \<Rightarrow> bool" where
  "isBooleanTTag (BooleanTTag _) = True"
| "isBooleanTTag _ = False"

fun isStringTTag :: "TypeTag \<Rightarrow> bool" where
  "isStringTTag (StringTTag _) = True"
| "isStringTTag _ = False"

fun isUnitTTag :: "TypeTag \<Rightarrow> bool" where
  "isUnitTTag UnitTTag = True"
| "isUnitTTag _ = False"

fun isIntegerTTag :: "TypeTag \<Rightarrow> bool" where
  "isIntegerTTag (IntegerTTag _) = True"
| "isIntegerTTag _ = False"

fun isFunctionTTag :: "TypeTag \<Rightarrow> bool" where
  "isFunctionTTag (FunctionTTag _ _) = True"
| "isFunctionTTag _ = False"

fun isPredicateTTag :: "TypeTag \<Rightarrow> bool" where
  "isPredicateTTag (PredicateTTag _) = True"
| "isPredicateTTag _ = False"

fun isSigTTag :: "TypeTag \<Rightarrow> bool" where
  "isSigTTag (SigTTag _) = True"
| "isSigTTag _ = False"

fun isRelationTTag :: "TypeTag \<Rightarrow> bool" where
  "isRelationTTag (RelationTTag _ _ _ _) = True"
| "isRelationTTag _ = False"

fun isErrorTypeTag :: "TypeTag \<Rightarrow> bool" where
  "isErrorTypeTag (ErrorTypeTag _ _) = True"
| "isErrorTypeTag _ = False"

text \<open>
  \<^verbatim>\<open>sameTypeAs\<close> is dispatched on the receiver. \<^verbatim>\<open>paramTypesLoop\<close> is the \<^verbatim>\<open>for\<close> loop
  of \<^verbatim>\<open>paramTagsCoincide\<close>; it runs only after the two lengths were found equal, so
  its equation for lists of different lengths is never reached.
\<close>

function sameTypeAs :: "TypeTag \<Rightarrow> TypeTag \<Rightarrow> bool"
  and paramTypesLoop :: "(nid \<times> TypeTag) list \<Rightarrow> (nid \<times> TypeTag) list \<Rightarrow> bool"
where
  "sameTypeAs (BooleanTTag l) other = isBooleanTTag other"
| "sameTypeAs (StringTTag l) other = isStringTTag other"
| "sameTypeAs (IntegerTTag l) other = isIntegerTTag other"
| "sameTypeAs UnitTTag other = isUnitTTag other"
| "sameTypeAs (FunctionTTag ps r) other =
     (case other of
        FunctionTTag qs _ \<Rightarrow>
          if length ps \<noteq> length qs then False else paramTypesLoop ps qs
      | _ \<Rightarrow> False)"
| "sameTypeAs (PredicateTTag ps) other =
     (case other of
        PredicateTTag qs \<Rightarrow>
          if length ps \<noteq> length qs then False else paramTypesLoop ps qs
      | _ \<Rightarrow> False)"
| "sameTypeAs (SigTTag s) other = isSigTTag other"
| "sameTypeAs (RelationTTag obj rel s t) other =
     (case other of RelationTTag obj' _ _ _ \<Rightarrow> obj = obj' | _ \<Rightarrow> False)"
| "sameTypeAs (ErrorTypeTag n m) other =
     (case other of ErrorTypeTag n' m' \<Rightarrow> n = n' \<and> m = m' | _ \<Rightarrow> False)"
| "paramTypesLoop [] qs = True"
| "paramTypesLoop (p # ps) [] = False"
| "paramTypesLoop (p # ps) (q # qs) =
     (if \<not> sameTypeAs (snd p) (snd q) then False else paramTypesLoop ps qs)"
  by pat_completeness auto
termination
  by (relation "measure (\<lambda>x. case x of
          Inl (t, _) \<Rightarrow> size t
        | Inr (ps, _) \<Rightarrow> size_list (size_prod (\<lambda>_. 0) size) ps)") auto

text \<open>\<^verbatim>\<open>SigTTag.sameSigAs\<close>.\<close>

fun sameSigAs :: "TypeTag \<Rightarrow> TypeTag \<Rightarrow> bool" where
  "sameSigAs (SigTTag s) other = (case other of SigTTag s' \<Rightarrow> s' = s | _ \<Rightarrow> False)"
| "sameSigAs _ other = False"

text \<open>\<^verbatim>\<open>Array.prototype.join\<close>.\<close>

fun joinWith :: "string \<Rightarrow> string list \<Rightarrow> string" where
  "joinWith sep [] = []"
| "joinWith sep [x] = x"
| "joinWith sep (x # y # ys) = x @ sep @ joinWith sep (y # ys)"

text \<open>\<^verbatim>\<open>toString\<close>; the name of a parameter is read from its node.\<close>

function toString :: "prog \<Rightarrow> TypeTag \<Rightarrow> string" where
  "toString P (BooleanTTag l) = ''Boolean''"
| "toString P (StringTTag l) = ''String''"
| "toString P (IntegerTTag l) = ''Integer''"
| "toString P UnitTTag = ''Unit''"
| "toString P (FunctionTTag ps r) =
     ''('' @ joinWith '', '' (map (\<lambda>p. showOpt (nodeName P (fst p)) @ '': '' @ toString P (snd p)) ps)
       @ '') => '' @ toString P r"
| "toString P (PredicateTTag ps) =
     ''Predicate[('' @ joinWith '', '' (map (\<lambda>p. showOpt (nodeName P (fst p)) @ '': '' @ toString P (snd p)) ps)
       @ '')]''"
| "toString P (SigTTag s) = ''Sig''"
| "toString P (RelationTTag obj rel s t) = ''Relation''"
| "toString P (ErrorTypeTag n m) = ''Error: '' @ m"
  by pat_completeness auto
termination
proof (relation "measure (\<lambda>(P, t). size t)")
  have le: "p \<in> set ps \<Longrightarrow> size (snd p) < Suc (size_list (size_prod (\<lambda>_. 0) size) ps)"
    for p :: "nid \<times> TypeTag" and ps
    by (induction ps) auto
  fix P :: prog and ps :: "(nid \<times> TypeTag) list" and r :: TypeTag and p :: "nid \<times> TypeTag"
  assume "p \<in> set ps"
  from le [OF this]
  show "((P, snd p), (P, FunctionTTag ps r)) \<in> measure (\<lambda>(P, t). size t)"
    and "((P, snd p), (P, PredicateTTag ps)) \<in> measure (\<lambda>(P, t). size t)"
    by simp_all
qed simp_all

text \<open>\<^verbatim>\<open>SigTTag.getSig\<close> and \<^verbatim>\<open>RelationTTag.joinOnLeft\<close>; the latter is called on a
  relation tag with a Sig tag as argument, and answers \<^verbatim>\<open>null\<close> otherwise.\<close>

fun joinOnLeft :: "TypeTag \<Rightarrow> TypeTag \<Rightarrow> TypeTag option" where
  "joinOnLeft (RelationTTag obj rel parentSig relatum) (SigTTag s) =
     (if parentSig = s then Some relatum else None)"
| "joinOnLeft _ _ = None"

section \<open>Ancestor resolver (infer.ts, getSigAncestors)\<close>

text \<open>
  The resolved parents of a Sig, in declaration order: \<^verbatim>\<open>parents\<close> is a list of
  \<^verbatim>\<open>Reference<SigDecl>\<close>, and the loop pushes \<^verbatim>\<open>parent.ref\<close> only when it is set.
  Every node the traversal reaches is a \<^verbatim>\<open>SigDecl\<close> by the type of these references;
  a node of another kind has no parents and no relations here.
\<close>

definition sigParents :: "prog \<Rightarrow> nid \<Rightarrow> nid list" where
  "sigParents P s =
     (case nodeAt P s of
        SigDecl _ parents _ \<Rightarrow> List.map_filter ref parents
      | _ \<Rightarrow> [])"

definition sigRelations :: "prog \<Rightarrow> nid \<Rightarrow> nid list" where
  "sigRelations P s = (case nodeAt P s of SigDecl _ _ relations \<Rightarrow> relations | _ \<Rightarrow> [])"

text \<open>
  The \<^verbatim>\<open>while\<close> loop of \<^verbatim>\<open>getSigAncestors\<close>. \<^verbatim>\<open>toVisit\<close> is the array used as a
  stack: \<^verbatim>\<open>pop\<close> takes its last element and \<^verbatim>\<open>push\<close> appends. \<^verbatim>\<open>seen\<close> is the
  JavaScript \<^verbatim>\<open>Set\<close>, which keeps insertion order, as the list of its elements in that
  order. The loop ends because each round either marks a node of the program that was
  not seen before, or shortens the stack.
\<close>

function ancestorsLoop :: "prog \<Rightarrow> nid list \<Rightarrow> nid list \<Rightarrow> nid list" where
  "ancestorsLoop P seen toVisit =
     (if toVisit = [] then seen
      else
        let next = last toVisit; rest = butlast toVisit in
        if next \<notin> set seen then ancestorsLoop P (seen @ [next]) (rest @ sigParents P next)
        else ancestorsLoop P seen rest)"
  by pat_completeness auto
termination
proof (relation "measures [\<lambda>(P, seen, toVisit). card ({..<length P} - set seen),
                           \<lambda>(P, seen, toVisit). length toVisit]", goal_cases)
  case 1
  show ?case by simp
next
  case (2 P seen toVisit nxt rest)
  show ?case
  proof (cases "nxt < length P")
    case True
    with 2 have "{..<length P} - set (seen @ [nxt]) \<subset> {..<length P} - set seen"
      by auto
    then have "card ({..<length P} - set (seen @ [nxt])) < card ({..<length P} - set seen)"
      by (intro psubset_card_mono) auto
    then show ?thesis by simp
  next
    case False
    then have "sigParents P nxt = []"
      by (simp add: sigParents_def nodeAt_def)
    moreover from False have "{..<length P} - set (seen @ [nxt]) = {..<length P} - set seen"
      by auto
    ultimately show ?thesis using 2 by simp
  qed
next
  case (3 P seen toVisit nxt rest)
  then show ?case by simp
qed

declare ancestorsLoop.simps [simp del]

definition getSigAncestors :: "prog \<Rightarrow> nid \<Rightarrow> nid list" where
  "getSigAncestors P sig = ancestorsLoop P [] [sig]"

text \<open>The parent edges the traversal follows, as a relation.\<close>

definition parentEdges :: "prog \<Rightarrow> (nid \<times> nid) set" where
  "parentEdges P = {(s, p). p \<in> set (sigParents P s)}"

text \<open>\<^verbatim>\<open>Lam4ScopeProvider.scopeSigMembers\<close> (the scope provider): the relations put in
  scope for the right-hand reference of a join, as the list of nodes handed to
  \<^verbatim>\<open>createScopeForNodes\<close>.\<close>

definition scopeSigMembers :: "prog \<Rightarrow> nid \<Rightarrow> nid list" where
  "scopeSigMembers P sig = concat (map (sigRelations P) (getSigAncestors P sig))"

section \<open>Type environment (infer.ts, TypeEnv)\<close>

text \<open>
  A \<^verbatim>\<open>TypeEnv\<close> is an object holding a mutable \<^verbatim>\<open>Map\<close> from nodes to tags, and
  \<^verbatim>\<open>extendWith\<close> makes a new object. The heap holds the map of every environment
  object under its address, the next free address, and the counter that numbers the
  relation tags as they are constructed.
\<close>

record heap =
  envs :: "nat \<Rightarrow> nid \<Rightarrow> TypeTag option"
  nextEnv :: nat
  nextObj :: nat

text \<open>The constructor: a new object around the given map.\<close>

definition TypeEnv_new :: "heap \<Rightarrow> (nid \<Rightarrow> TypeTag option) \<Rightarrow> nat \<times> heap" where
  "TypeEnv_new h initialEnvMap =
     (nextEnv h, h\<lparr>envs := (envs h)(nextEnv h := initialEnvMap), nextEnv := Suc (nextEnv h)\<rparr>)"

definition TypeEnv_lookup :: "heap \<Rightarrow> nat \<Rightarrow> nid \<Rightarrow> TypeTag option" where
  "TypeEnv_lookup h env node = envs h env node"

definition TypeEnv_set :: "heap \<Rightarrow> nat \<Rightarrow> nid \<Rightarrow> TypeTag \<Rightarrow> heap" where
  "TypeEnv_set h env node type = h\<lparr>envs := (envs h)(env := (envs h env)(node \<mapsto> type))\<rparr>"

text \<open>\<^verbatim>\<open>new Map(entries)\<close> sets the entries one after the other, so a later entry
  replaces an earlier one with the same key.\<close>

definition newMap :: "(nid \<times> TypeTag) list \<Rightarrow> (nid \<Rightarrow> TypeTag option)" where
  "newMap entries = fold (\<lambda>(node, type) m. m(node \<mapsto> type)) entries Map.empty"

definition TypeEnv_extendWith :: "heap \<Rightarrow> nat \<Rightarrow> (nid \<times> TypeTag) list \<Rightarrow> nat \<times> heap" where
  "TypeEnv_extendWith h env nodeTypePairs =
     (let newPairMap = newMap nodeTypePairs;
          newEnvMap = envs h env ++ newPairMap
      in TypeEnv_new h newEnvMap)"

section \<open>Synthesis and checking (infer.ts)\<close>

text \<open>
  A call either returns a tag and the heap it leaves, or throws a JavaScript
  \<^verbatim>\<open>TypeError\<close> (a property read on \<^verbatim>\<open>undefined\<close>), or does not return within the
  call depth allowed. \<^verbatim>\<open>synth\<close> and \<^verbatim>\<open>check\<close> call each other without a bound the
  source could state (its comments report stack overflows), so both take the depth
  still allowed as their first argument; the functions between them (\<^verbatim>\<open>synthNewNode\<close>,
  \<^verbatim>\<open>synthJoin\<close>, ...) take the two functions they call back, \<^verbatim>\<open>syn\<close> and \<^verbatim>\<open>chk\<close>.
\<close>

datatype error = OutOfFuel | TypeError

type_synonym 'a res = "error + 'a \<times> heap"
type_synonym synthFn = "heap \<Rightarrow> nat \<Rightarrow> nid option \<Rightarrow> TypeTag res"
type_synonym checkFn = "heap \<Rightarrow> nat \<Rightarrow> nid \<Rightarrow> TypeTag \<Rightarrow> TypeTag res"

text \<open>
  Modelled from the spec: \<^verbatim>\<open>zip\<close> of \<^verbatim>\<open>utils.js\<close> is imported by infer.ts and is not
  among the sources. The spec has it pair the two lists by position, "truncated to the
  shorter of the two lists".
\<close>

definition zip_utils :: "'a list \<Rightarrow> 'b list \<Rightarrow> ('a \<times> 'b) list" where
  "zip_utils xs ys = zip xs ys"

text \<open>
  infer.ts calls \<^verbatim>\<open>getParameters()\<close> and \<^verbatim>\<open>getTypeOfParam(param)\<close> on a tag it has
  found to be a Function tag. The class \<^verbatim>\<open>FunctionTTag\<close> of type-tags.ts declares
  neither method (its members are \<^verbatim>\<open>tag\<close>, \<^verbatim>\<open>returnType\<close>, \<^verbatim>\<open>parameters\<close>, \<^verbatim>\<open>toString\<close>,
  \<^verbatim>\<open>paramTagsCoincide\<close> and \<^verbatim>\<open>sameTypeAs\<close>), no other class does, and the classes extend
  nothing: each call is a call of \<^verbatim>\<open>undefined\<close> and throws a \<^verbatim>\<open>TypeError\<close>, so that the
  statements after it are not reached.
\<close>

definition getParameters :: "TypeTag \<Rightarrow> error + (nid \<times> TypeTag) list" where
  "getParameters t = Inl TypeError"

definition getTypeOfParam :: "TypeTag \<Rightarrow> nid \<Rightarrow> error + TypeTag option" where
  "getTypeOfParam t param = Inl TypeError"

text \<open>\<^verbatim>\<open>inferTypeAnnot\<close>, which reads no environment. A node or a reference printed in
  a template literal reads \<^verbatim>\<open>[object Object]\<close>.\<close>

definition inferTypeAnnot :: "prog \<Rightarrow> nid \<Rightarrow> TypeTag" where
  "inferTypeAnnot P typeAnnot =
     (case nodeAt P typeAnnot of
        BuiltinType annot \<Rightarrow>
          (case annot of
             AnnotString \<Rightarrow> StringTTag None
           | AnnotInteger \<Rightarrow> IntegerTTag None
           | AnnotBoolean \<Rightarrow> BooleanTTag None)
      | CustomTypeDef annot \<Rightarrow>
          (case ref annot of
             None \<Rightarrow> ErrorTypeTag (Some typeAnnot)
                      ''Type annotation [object Object] not found because of an issue with linking''
           | Some customType \<Rightarrow> SigTTag customType)
      | _ \<Rightarrow> ErrorTypeTag (Some typeAnnot) ''Type annotation [object Object] not recognized'')"

definition ARITH_OPERATORS :: "string list" where
  "ARITH_OPERATORS = [''OpPlus'', ''OpMinus'', ''OpMult'', ''OpDiv'']"

fun isComparisonOp :: "Op \<Rightarrow> bool" where
  "isComparisonOp (ComparisonOp _) = True"
| "isComparisonOp (OtherOp _) = False"

definition inferBinExpr :: "checkFn \<Rightarrow> heap \<Rightarrow> nat \<Rightarrow> nid \<Rightarrow> Op \<Rightarrow> TypeTag res" where
  "inferBinExpr chk h env expr op =
     (let isBoolExpr = isComparisonOp op \<or> opType op \<in> set [''OpAnd'', ''OpOr''] in
      if isBoolExpr then chk h env expr (BooleanTTag None)
      else if opType op \<in> set ARITH_OPERATORS then chk h env expr (IntegerTTag None)
      else Inr (ErrorTypeTag (Some expr) ''Type of binary expression cannot be inferred'', h))"

text \<open>\<^verbatim>\<open>predicateTTagFromPredDecl\<close>: the \<^verbatim>\<open>map\<close> over \<^verbatim>\<open>predDecl.params\<close>, whose elements
  are \<^verbatim>\<open>ParamTypePair\<close> nodes by their generated type.\<close>

fun predicateParams :: "prog \<Rightarrow> nid list \<Rightarrow> error + (nid \<times> TypeTag) list" where
  "predicateParams P [] = Inr []"
| "predicateParams P (pair # pairs) =
     (case nodeAt P pair of
        ParamTypePair param type \<Rightarrow>
          (case predicateParams P pairs of
             Inl e \<Rightarrow> Inl e
           | Inr rest \<Rightarrow> Inr ((param, inferTypeAnnot P type) # rest))
      | _ \<Rightarrow> Inl TypeError)"

definition predicateTTagFromPredDecl :: "prog \<Rightarrow> nid list \<Rightarrow> error + TypeTag" where
  "predicateTTagFromPredDecl P params =
     (case predicateParams P params of
        Inl e \<Rightarrow> Inl e
      | Inr paramTypePairs \<Rightarrow> Inr (PredicateTTag paramTypePairs))"

text \<open>\<^verbatim>\<open>fundecl.types.map(synth.bind(undefined, env))\<close>.\<close>

fun mapSynth :: "synthFn \<Rightarrow> heap \<Rightarrow> nat \<Rightarrow> nid list \<Rightarrow> (TypeTag list) res" where
  "mapSynth syn h env [] = Inr ([], h)"
| "mapSynth syn h env (t # ts) =
     (case syn h env (Some t) of
        Inl e \<Rightarrow> Inl e
      | Inr (ty, h1) \<Rightarrow>
          (case mapSynth syn h1 env ts of
             Inl e \<Rightarrow> Inl e
           | Inr (tys, h2) \<Rightarrow> Inr (ty # tys, h2)))"

text \<open>
  \<^verbatim>\<open>functionTTagFromFuncDecl\<close>. With no type slot and no parameter the return type
  is \<^verbatim>\<open>undefined\<close>, and the \<^verbatim>\<open>toString\<close> of the new tag, called for the trace message,
  throws on it.
\<close>

definition functionTTagFromFuncDecl ::
  "synthFn \<Rightarrow> heap \<Rightarrow> nat \<Rightarrow> nid \<Rightarrow> nid list \<Rightarrow> nid list \<Rightarrow> TypeTag res" where
  "functionTTagFromFuncDecl syn h env fundecl types params =
     (case mapSynth syn h env types of
        Inl e \<Rightarrow> Inl e
      | Inr (paramAndRetTypes, h1) \<Rightarrow>
          let argTypes = butlast paramAndRetTypes in
          if length argTypes \<noteq> length params
          then Inr (ErrorTypeTag (Some fundecl)
                      ''Number of parameters and parameter types do not match'', h1)
          else if paramAndRetTypes = [] then Inl TypeError
          else Inr (FunctionTTag (zip_utils params argTypes) (last paramAndRetTypes), h1))"

definition synthRef :: "synthFn \<Rightarrow> heap \<Rightarrow> nat \<Rightarrow> nid \<Rightarrow> Reference \<Rightarrow> TypeTag res" where
  "synthRef syn h env term value =
     (case ref value of
        Some target \<Rightarrow> syn h env (Some target)
      | None \<Rightarrow>
          Inr (ErrorTypeTag (Some term)
                 (''Can't typecheck ref because reference can't be resolved. reftxt: ''
                  @ refText value @ ''; linking error?: '' @ showOpt (linkError value)), h))"

text \<open>\<^verbatim>\<open>synthJoin\<close>. The right child is a \<^verbatim>\<open>Ref\<close> and the node of a Sig tag a
  \<^verbatim>\<open>SigDecl\<close> by their types; on any other node the property reads throw.\<close>

definition synthJoin :: "synthFn \<Rightarrow> prog \<Rightarrow> heap \<Rightarrow> nat \<Rightarrow> nid \<Rightarrow> nid \<Rightarrow> nid \<Rightarrow> TypeTag res" where
  "synthJoin syn P h env term left right =
     (case syn h env (Some left) of
        Inl e \<Rightarrow> Inl e
      | Inr (typeOfLeft, h1) \<Rightarrow>
          (case nodeAt P right of
             Ref value \<Rightarrow>
               let rightRefName = refText value in
               (case typeOfLeft of
                  SigTTag sig \<Rightarrow>
                    (case nodeAt P sig of
                       SigDecl sigName _ relations \<Rightarrow>
                         (case find (\<lambda>relNode. nodeName P relNode = Some rightRefName) relations of
                            Some matchingRelation \<Rightarrow>
                              (case syn h1 env (Some matchingRelation) of
                                 Inl e \<Rightarrow> Inl e
                               | Inr (relationType, h2) \<Rightarrow>
                                   if \<not> isRelationTTag relationType
                                   then Inr (ErrorTypeTag (Some matchingRelation)
                                               (''Relation should have a RelationTTag, but it instead has ''
                                                @ toString P relationType), h2)
                                   else
                                     (case joinOnLeft relationType typeOfLeft of
                                        Some joinedType \<Rightarrow> Inr (joinedType, h2)
                                      | None \<Rightarrow>
                                          Inr (ErrorTypeTag (Some term) ''join should have worked'', h2)))
                          | None \<Rightarrow>
                              Inr (ErrorTypeTag (Some term)
                                     (''Relatum '' @ rightRefName @ '' not found in '' @ sigName), h1))
                     | _ \<Rightarrow> Inl TypeError)
                | _ \<Rightarrow>
                    Inr (ErrorTypeTag (Some left)
                           (''The type of something to the left of a join / field access operator should be a Concept, and not a ''
                            @ toString P typeOfLeft), h1))
           | _ \<Rightarrow> Inl TypeError))"

text \<open>The \<^verbatim>\<open>for\<close> loop of the function application rule, with its two variables
  \<^verbatim>\<open>typeTag\<close> and \<^verbatim>\<open>checkPassed\<close>.\<close>

fun checkArgs ::
  "checkFn \<Rightarrow> heap \<Rightarrow> nat \<Rightarrow> (nid \<times> TypeTag) list \<Rightarrow> TypeTag \<Rightarrow> bool \<Rightarrow> (TypeTag \<times> bool) res" where
  "checkArgs chk h env [] typeTag checkPassed = Inr ((typeTag, checkPassed), h)"
| "checkArgs chk h env ((arg, expectedType) # rest) typeTag checkPassed =
     (case chk h env arg expectedType of
        Inl e \<Rightarrow> Inl e
      | Inr (checkRetType, h1) \<Rightarrow>
          if isErrorTypeTag checkRetType
          then checkArgs chk h1 env rest checkRetType False
          else checkArgs chk h1 env rest typeTag checkPassed)"

text \<open>The branches of \<^verbatim>\<open>synthNewNode\<close> that are more than one call, each under the
  name of its node kind.\<close>

definition synthFunctionApplication ::
  "synthFn \<Rightarrow> checkFn \<Rightarrow> heap \<Rightarrow> nat \<Rightarrow> nid \<Rightarrow> nid \<Rightarrow> nid list \<Rightarrow> TypeTag res" where
  "synthFunctionApplication syn chk h env term func args =
     (case syn h env (Some func) of
        Inl e \<Rightarrow> Inl e
      | Inr (inferredFuncType, h1) \<Rightarrow>
          (case inferredFuncType of
             FunctionTTag _ returnType \<Rightarrow>
               (case getParameters inferredFuncType of
                  Inl e \<Rightarrow> Inl e
                | Inr parameters \<Rightarrow>
                    let inferredArgTypes = map snd parameters in
                    (case checkArgs chk h1 env (zip_utils args inferredArgTypes)
                            (ErrorTypeTag (Some term) ''Could not infer type'') True of
                       Inl e \<Rightarrow> Inl e
                     | Inr ((typeTag, checkPassed), h2) \<Rightarrow>
                         Inr (if checkPassed then returnType else typeTag, h2)))
           | _ \<Rightarrow>
               Inr (ErrorTypeTag (Some func)
                      ''We expected a function type because of the function application, but this is not a function type'',
                    h1)))"

text \<open>The constructor of \<^verbatim>\<open>RelationTTag\<close> calls \<^verbatim>\<open>getSig\<close> on the type synthesized for the
  container, after both arguments were evaluated; a tag of another class has no such
  method.\<close>

definition synthRelation ::
  "synthFn \<Rightarrow> prog \<Rightarrow> heap \<Rightarrow> nat \<Rightarrow> nid \<Rightarrow> nid \<Rightarrow> nid \<Rightarrow> TypeTag res" where
  "synthRelation syn P h env term container relatum =
     (case nodeAt P container of
        SigDecl _ _ _ \<Rightarrow>
          (case syn h env (Some container) of
             Inl e \<Rightarrow> Inl e
           | Inr (parentSigType, h1) \<Rightarrow>
               (case syn h1 env (Some relatum) of
                  Inl e \<Rightarrow> Inl e
                | Inr (relatumType, h2) \<Rightarrow>
                    (case parentSigType of
                       SigTTag parentSig \<Rightarrow>
                         Inr (RelationTTag (nextObj h2) term parentSig relatumType,
                              h2\<lparr>nextObj := Suc (nextObj h2)\<rparr>)
                     | _ \<Rightarrow> Inl TypeError)))
      | _ \<Rightarrow> Inr (ErrorTypeTag (Some term) ''Relation should have a Concept as its parent'', h))"

definition synthParam :: "synthFn \<Rightarrow> heap \<Rightarrow> nat \<Rightarrow> nid \<Rightarrow> nid \<Rightarrow> TypeTag res" where
  "synthParam syn h env term container =
     (case syn h env (Some container) of
        Inl e \<Rightarrow> Inl e
      | Inr (typeOfParent, h1) \<Rightarrow>
          if isFunctionTTag typeOfParent then
            (case getTypeOfParam typeOfParent term of
               Inl e \<Rightarrow> Inl e
             | Inr (Some paramType) \<Rightarrow> Inr (paramType, h1)
             | Inr None \<Rightarrow>
                 Inr (ErrorTypeTag (Some term)
                        ''param either not a param of function or lacks a type annotation'', h1))
          else Inr (ErrorTypeTag (Some term)
                      ''param either not a param of function or lacks a type annotation'', h1))"

text \<open>\<^verbatim>\<open>synthNewNode\<close>: the chain of tests on the node kind, in the order of the source,
  then \<^verbatim>\<open>env.set(term, typeTag)\<close>.\<close>

definition synthNewNode :: "synthFn \<Rightarrow> checkFn \<Rightarrow> prog \<Rightarrow> heap \<Rightarrow> nat \<Rightarrow> nid \<Rightarrow> TypeTag res" where
  "synthNewNode syn chk P h env term =
     (case
        (case nodeAt P term of
           Ref value \<Rightarrow> synthRef syn h env term value
         | Join left right \<Rightarrow> synthJoin syn P h env term left right
         | StringLiteral _ \<Rightarrow> Inr (StringTTag (Some term), h)
         | BooleanLiteral _ \<Rightarrow> Inr (BooleanTTag (Some term), h)
         | NumberLiteral _ \<Rightarrow> Inr (IntegerTTag (Some term), h)
         | VarDecl varType value \<Rightarrow>
             (case varType of Some vt \<Rightarrow> syn h env (Some vt) | None \<Rightarrow> syn h env value)
         | Param _ container \<Rightarrow> synthParam syn h env term container
         | ParamTypePair _ type \<Rightarrow> syn h env (Some type)
         | BuiltinType _ \<Rightarrow> Inr (inferTypeAnnot P term, h)
         | CustomTypeDef _ \<Rightarrow> Inr (inferTypeAnnot P term, h)
         | OtherTypeAnnot \<Rightarrow> Inr (inferTypeAnnot P term, h)
         | SigDecl _ _ _ \<Rightarrow> Inr (SigTTag term, h)
         | Relation _ container relatum \<Rightarrow> synthRelation syn P h env term container relatum
         | BinExpr op _ _ \<Rightarrow> inferBinExpr chk h env term op
         | FunDecl types params _ \<Rightarrow> functionTTagFromFuncDecl syn h env term types params
         | FunctionApplication func args \<Rightarrow> synthFunctionApplication syn chk h env term func args
         | PredicateDecl params _ \<Rightarrow>
             (case predicateTTagFromPredDecl P params of
                Inl e \<Rightarrow> Inl e
              | Inr predType \<Rightarrow> chk h env term predType)
         | _ \<Rightarrow> Inr (ErrorTypeTag (Some term) ''Type of term cannot be inferred'', h))
      of
        Inl e \<Rightarrow> Inl e
      | Inr (typeTag, h') \<Rightarrow> Inr (typeTag, TypeEnv_set h' env term typeTag))"

definition checkChildrenHaveSameType ::
  "checkFn \<Rightarrow> prog \<Rightarrow> heap \<Rightarrow> nat \<Rightarrow> nid \<Rightarrow> nid \<Rightarrow> nid \<Rightarrow> TypeTag \<Rightarrow> TypeTag res" where
  "checkChildrenHaveSameType chk P h env expr left right type =
     (case chk h env left type of
        Inl e \<Rightarrow> Inl e
      | Inr (leftType, h1) \<Rightarrow>
          (case chk h1 env right type of
             Inl e \<Rightarrow> Inl e
           | Inr (rightType, h2) \<Rightarrow>
               let typesCheck = list_all (\<lambda>typeTag. sameTypeAs typeTag type) [leftType, rightType] in
               Inr (if typesCheck then type
                    else ErrorTypeTag (Some expr)
                           (''Type error in binary expression. Expected type to be '' @ toString P type
                            @ '', but got '' @ toString P leftType @ '' and '' @ toString P rightType),
                    h2)))"

text \<open>The if-then-else rule of \<^verbatim>\<open>check\<close>; \<^verbatim>\<open>&&\<close> does not evaluate its right operand
  when the left one is false.\<close>

definition iteErrorMessage :: string where
  "iteErrorMessage =
     ''Type error in if-then-else expression (a more helpful error msg is possible with more work)''"

definition checkIfThenElse ::
  "synthFn \<Rightarrow> heap \<Rightarrow> nat \<Rightarrow> nid \<Rightarrow> nid \<Rightarrow> nid \<Rightarrow> nid \<Rightarrow> TypeTag \<Rightarrow> TypeTag res" where
  "checkIfThenElse syn h env ite condition thenN elseN type =
     (case syn h env (Some condition) of
        Inl e \<Rightarrow> Inl e
      | Inr (condType, h1) \<Rightarrow>
          if \<not> isBooleanTTag condType then Inr (ErrorTypeTag (Some ite) iteErrorMessage, h1)
          else
            (case syn h1 env (Some thenN) of
               Inl e \<Rightarrow> Inl e
             | Inr (thenType, h2) \<Rightarrow>
                 if \<not> sameTypeAs thenType type then Inr (ErrorTypeTag (Some ite) iteErrorMessage, h2)
                 else
                   (case syn h2 env (Some elseN) of
                      Inl e \<Rightarrow> Inl e
                    | Inr (elseType, h3) \<Rightarrow>
                        Inr (if sameTypeAs elseType type then type
                             else ErrorTypeTag (Some ite) iteErrorMessage, h3))))"

text \<open>The body of \<^verbatim>\<open>check\<close>: the \<^verbatim>\<open>match\<close> on the node kind, first case first.\<close>

definition checkNode :: "synthFn \<Rightarrow> checkFn \<Rightarrow> prog \<Rightarrow> heap \<Rightarrow> nat \<Rightarrow> nid \<Rightarrow> TypeTag \<Rightarrow> TypeTag res" where
  "checkNode syn chk P h env term type =
     (case nodeAt P term of
        BinExpr _ left right \<Rightarrow> checkChildrenHaveSameType chk P h env term left right type
      | FunDecl _ _ body \<Rightarrow>
          (case type of
             FunctionTTag _ funcRetType \<Rightarrow>
               (case getParameters type of
                  Inl e \<Rightarrow> Inl e
                | Inr funcParamTypePairs \<Rightarrow>
                    let (newExtendedEnv, h1) = TypeEnv_extendWith h env funcParamTypePairs
                    in chk h1 newExtendedEnv body funcRetType)
           | _ \<Rightarrow>
               Inr (ErrorTypeTag (Some term)
                      ''Function declaration must be annotated with a function type'', h))
      | PredicateDecl _ _ \<Rightarrow> Inr (ErrorTypeTag (Some term) ''TODO'', h)
      | IfThenElseExpr condition thenN elseN \<Rightarrow>
          checkIfThenElse syn h env term condition thenN elseN type
      | _ \<Rightarrow>
          (case syn h env (Some term) of
             Inl e \<Rightarrow> Inl e
           | Inr (termType, h1) \<Rightarrow>
               Inr (if sameTypeAs termType type then type
                    else ErrorTypeTag (Some term) ''Type error'', h1)))"

text \<open>\<^verbatim>\<open>synth\<close> and \<^verbatim>\<open>check\<close>. A \<^verbatim>\<open>term\<close> that is \<^verbatim>\<open>undefined\<close> is \<^verbatim>\<open>None\<close>.\<close>

fun synth :: "nat \<Rightarrow> prog \<Rightarrow> heap \<Rightarrow> nat \<Rightarrow> nid option \<Rightarrow> TypeTag res"
  and check :: "nat \<Rightarrow> prog \<Rightarrow> heap \<Rightarrow> nat \<Rightarrow> nid \<Rightarrow> TypeTag \<Rightarrow> TypeTag res"
where
  "synth 0 P h env term = Inl OutOfFuel"
| "synth (Suc k) P h env term =
     (case term of
        None \<Rightarrow> Inr (ErrorTypeTag None ''Cannot infer type for a node that's falsy'', h)
      | Some t \<Rightarrow>
          (case TypeEnv_lookup h env t of
             Some existing \<Rightarrow> Inr (existing, h)
           | None \<Rightarrow> synthNewNode (synth k P) (check k P) P h env t))"
| "check 0 P h env term type = Inl OutOfFuel"
| "check (Suc k) P h env term type = checkNode (synth k P) (check k P) P h env term type"

section \<open>Notions used to state the properties\<close>

text \<open>The tag a call returned, without the heap.\<close>

definition tagOf :: "'a res \<Rightarrow> error + 'a" where
  "tagOf r = map_sum id fst r"

text \<open>The node kinds \<^verbatim>\<open>check\<close> has a rule of its own for; every other kind takes the
  fallback.\<close>

fun hasCheckRule :: "AstNode \<Rightarrow> bool" where
  "hasCheckRule (BinExpr _ _ _) = True"
| "hasCheckRule (FunDecl _ _ _) = True"
| "hasCheckRule (PredicateDecl _ _) = True"
| "hasCheckRule (IfThenElseExpr _ _ _) = True"
| "hasCheckRule _ = False"

text \<open>A heap with one empty environment, at address 0.\<close>

definition emptyHeap :: heap where
  "emptyHeap = \<lparr>envs = (\<lambda>_. Map.empty), nextEnv = 1, nextObj = 0\<rparr>"

text \<open>The diamond of the spec: \<^verbatim>\<open>D\<close> (node 3) has parents \<^verbatim>\<open>B\<close> and \<^verbatim>\<open>C\<close>, which both have
  parent \<^verbatim>\<open>A\<close> (node 0).\<close>

definition diamondProg :: prog where
  "diamondProg =
     [SigDecl ''A'' [] [],
      SigDecl ''B'' [Reference (Some 0) ''A'' None] [],
      SigDecl ''C'' [Reference (Some 0) ''A'' None] [],
      SigDecl ''D'' [Reference (Some 1) ''B'' None, Reference (Some 2) ''C'' None] []]"

text \<open>Two Sigs that name each other as parent, and a parent reference that was not
  linked.\<close>

definition cyclicProg :: prog where
  "cyclicProg =
     [SigDecl ''A'' [Reference (Some 1) ''B'' None, Reference None ''Z'' (Some ''unresolved'')] [],
      SigDecl ''B'' [Reference (Some 0) ''A'' None] []]"

text \<open>
  Sig \<^verbatim>\<open>P\<close> (node 0) declares the relation \<^verbatim>\<open>r\<close> (node 1) with relatum \<^verbatim>\<open>Integer\<close>;
  Sig \<^verbatim>\<open>S\<close> (node 3) has parent \<^verbatim>\<open>P\<close> and no relation of its own; \<^verbatim>\<open>x\<close> (node 4) is
  declared of type \<^verbatim>\<open>S\<close>; node 8 is the join of \<^verbatim>\<open>x\<close> and \<^verbatim>\<open>r\<close>, whose right reference the
  linker resolved to node 1. Node 12 is the join of \<^verbatim>\<open>y\<close> (node 9, of type \<^verbatim>\<open>P\<close>) and
  \<^verbatim>\<open>r\<close>.
\<close>

definition inheritProg :: prog where
  "inheritProg =
     [SigDecl ''P'' [] [1],
      Relation ''r'' 0 2,
      BuiltinType AnnotInteger,
      SigDecl ''S'' [Reference (Some 0) ''P'' None] [],
      VarDecl (Some 5) None,
      CustomTypeDef (Reference (Some 3) ''S'' None),
      Ref (Reference (Some 4) ''x'' None),
      Ref (Reference (Some 1) ''r'' None),
      Join 6 7,
      VarDecl (Some 10) None,
      CustomTypeDef (Reference (Some 0) ''P'' None),
      Ref (Reference (Some 9) ''y'' None),
      Join 11 7]"

text \<open>
  The function \<^verbatim>\<open>f : (Integer) => Boolean\<close> (node 0), the reference to it (node 5), and
  the expressions of the spec:
  \<^verbatim>\<open>f(true)\<close> (node 7), \<^verbatim>\<open>f(1)\<close> (node 9), \<^verbatim>\<open>1 + 2\<close> (node 11),
  \<^verbatim>\<open>if (true) then 1 else 2\<close> (node 12), \<^verbatim>\<open>if (1) then 1 else 2\<close> (node 13), and
  the call with one argument too many \<^verbatim>\<open>f(1, true)\<close> (node 14) and the call of a
  literal \<^verbatim>\<open>1(true)\<close> (node 15).
\<close>

definition exampleProg :: prog where
  "exampleProg =
     [FunDecl [1, 2] [3] 4,
      BuiltinType AnnotInteger,
      BuiltinType AnnotBoolean,
      Param ''n'' 0,
      BooleanLiteral True,
      Ref (Reference (Some 0) ''f'' None),
      BooleanLiteral True,
      FunctionApplication 5 [6],
      NumberLiteral 1,
      FunctionApplication 5 [8],
      NumberLiteral 2,
      BinExpr (OtherOp ''OpPlus'') 8 10,
      IfThenElseExpr 6 8 10,
      IfThenElseExpr 8 8 10,
      FunctionApplication 5 [8, 6],
      FunctionApplication 8 [6]]"

section \<open>Properties of the type tags\<close>

text \<open>
  C9. Two Error tags are the same type exactly when they carry the same offending node
  and the same message; an Error tag is never the same type as a tag of another class.
\<close>

theorem ErrorTypeTag_sameTypeAs_iff:
  "sameTypeAs (ErrorTypeTag n1 m1) (ErrorTypeTag n2 m2) = (n1 = n2 \<and> m1 = m2)"
  by simp




text \<open>
  C2, as stated, fails: two Sig tags of different declarations are the same type for
  \<^verbatim>\<open>sameTypeAs\<close>.
\<close>

theorem SigTTag_sameTypeAs_counterexample:
  "\<not> (sameTypeAs (SigTTag 0) (SigTTag 1) \<longleftrightarrow> (0::nid) = 1)"
  by simp

text \<open>
  C2, amended. \<^verbatim>\<open>SigTTag.sameTypeAs\<close> answers whether the other tag is a Sig tag, so any
  two Sig tags are the same type; the comparison of the declarations is
  \<^verbatim>\<open>SigTTag.sameSigAs\<close>.
\<close>

theorem SigTTag_sameTypeAs_any_Sig:
  "sameTypeAs (SigTTag s1) other = isSigTTag other
   \<and> sameTypeAs (SigTTag s1) (SigTTag s2)
   \<and> sameSigAs (SigTTag s1) (SigTTag s2) = (s1 = s2)"
  by auto


section \<open>Properties of the ancestor resolver\<close>

lemma set_pop: "toVisit \<noteq> [] \<Longrightarrow> set toVisit = insert (last toVisit) (set (butlast toVisit))"
  by (metis append_butlast_last_id list.simps(15) rotate1.simps(2) set_rotate1)

lemma ancestorsLoop_extends: "\<exists>ys. ancestorsLoop P seen toVisit = seen @ ys"
proof (induction P seen toVisit rule: ancestorsLoop.induct)
  case (1 P seen toVisit)
  show ?case
  proof (cases "toVisit = []")
    case True
    then show ?thesis by (simp add: ancestorsLoop.simps)
  next
    case False
    show ?thesis
    proof (cases "last toVisit \<in> set seen")
      case True
      with False 1(2) [OF False refl refl] show ?thesis
        by (subst ancestorsLoop.simps) (simp add: Let_def)
    next
      case notin: False
      from 1(1) [OF False refl refl notin]
      obtain ys where "ancestorsLoop P (seen @ [last toVisit]) (butlast toVisit @ sigParents P (last toVisit))
                       = (seen @ [last toVisit]) @ ys" by blast
      with False notin show ?thesis
        by (subst ancestorsLoop.simps) (simp add: Let_def)
    qed
  qed
qed

lemma ancestorsLoop_distinct: "distinct seen \<Longrightarrow> distinct (ancestorsLoop P seen toVisit)"
proof (induction P seen toVisit rule: ancestorsLoop.induct)
  case (1 P seen toVisit)
  show ?case
  proof (cases "toVisit = []")
    case True
    with 1(3) show ?thesis by (simp add: ancestorsLoop.simps)
  next
    case False
    show ?thesis
    proof (cases "last toVisit \<in> set seen")
      case True
      with False 1(2) [OF False refl refl _ 1(3)] show ?thesis
        by (subst ancestorsLoop.simps) (simp add: Let_def)
    next
      case notin: False
      with 1(3) have "distinct (seen @ [last toVisit])" by simp
      from 1(1) [OF False refl refl notin this] False notin show ?thesis
        by (subst ancestorsLoop.simps) (simp add: Let_def)
    qed
  qed
qed

lemma ancestorsLoop_within:
  "set seen \<union> set toVisit \<subseteq> A \<Longrightarrow> \<forall>x \<in> A. set (sigParents P x) \<subseteq> A \<Longrightarrow>
   set (ancestorsLoop P seen toVisit) \<subseteq> A"
proof (induction P seen toVisit rule: ancestorsLoop.induct)
  case (1 P seen toVisit)
  show ?case
  proof (cases "toVisit = []")
    case True
    with 1(3) show ?thesis by (simp add: ancestorsLoop.simps)
  next
    case False
    from False 1(3) have sub: "set seen \<subseteq> A" "last toVisit \<in> A" "set (butlast toVisit) \<subseteq> A"
      by (auto simp: set_pop)
    show ?thesis
    proof (cases "last toVisit \<in> set seen")
      case True
      from sub have "set seen \<union> set (butlast toVisit) \<subseteq> A" by simp
      from 1(2) [OF False refl refl _ this 1(4)] True False show ?thesis
        by (subst ancestorsLoop.simps) (simp add: Let_def)
    next
      case notin: False
      from sub 1(4) have "set (seen @ [last toVisit]) \<union> set (butlast toVisit @ sigParents P (last toVisit)) \<subseteq> A"
        by auto
      from 1(1) [OF False refl refl notin this 1(4)] False notin show ?thesis
        by (subst ancestorsLoop.simps) (simp add: Let_def)
    qed
  qed
qed

lemma ancestorsLoop_closed:
  "\<forall>x \<in> set seen. set (sigParents P x) \<subseteq> set seen \<union> set toVisit \<Longrightarrow>
   set seen \<union> set toVisit \<subseteq> set (ancestorsLoop P seen toVisit)
   \<and> (\<forall>x \<in> set (ancestorsLoop P seen toVisit).
         set (sigParents P x) \<subseteq> set (ancestorsLoop P seen toVisit))"
proof (induction P seen toVisit rule: ancestorsLoop.induct)
  case (1 P seen toVisit)
  show ?case
  proof (cases "toVisit = []")
    case True
    with 1(3) show ?thesis by (simp add: ancestorsLoop.simps)
  next
    case False
    note pop = set_pop [OF False]
    show ?thesis
    proof (cases "last toVisit \<in> set seen")
      case True
      have eq: "ancestorsLoop P seen toVisit = ancestorsLoop P seen (butlast toVisit)"
        using False True by (subst ancestorsLoop.simps) (simp add: Let_def)
      from 1(3) True have "\<forall>x \<in> set seen. set (sigParents P x) \<subseteq> set seen \<union> set (butlast toVisit)"
        unfolding pop by auto
      from 1(2) [OF False refl refl _ this] True show ?thesis
        unfolding eq pop by auto
    next
      case notin: False
      have eq: "ancestorsLoop P seen toVisit
                = ancestorsLoop P (seen @ [last toVisit]) (butlast toVisit @ sigParents P (last toVisit))"
        using False notin by (subst ancestorsLoop.simps) (simp add: Let_def)
      from 1(3) have "\<forall>x \<in> set (seen @ [last toVisit]). set (sigParents P x)
                        \<subseteq> set (seen @ [last toVisit]) \<union> set (butlast toVisit @ sigParents P (last toVisit))"
        unfolding pop by auto
      from 1(1) [OF False refl refl notin this] show ?thesis
        unfolding eq pop by auto
    qed
  qed
qed

text \<open>
  C4. The result of \<^verbatim>\<open>getSigAncestors\<close> starts with the Sig itself, holds no Sig twice,
  and holds exactly the Sigs reached from it along resolved parent links. The function
  is total: the loop ends on every program, cyclic parent graphs included.
\<close>

theorem getSigAncestors_closure:
  "getSigAncestors P s \<noteq> [] \<and> hd (getSigAncestors P s) = s
   \<and> distinct (getSigAncestors P s)
   \<and> set (getSigAncestors P s) = (parentEdges P)\<^sup>* `` {s}"
proof -
  let ?R = "parentEdges P"
  have step: "ancestorsLoop P [] [s] = ancestorsLoop P [s] (sigParents P s)"
    by (subst ancestorsLoop.simps) (simp add: Let_def)
  obtain ys where ys: "ancestorsLoop P [s] (sigParents P s) = [s] @ ys"
    using ancestorsLoop_extends by blast
  have "set (getSigAncestors P s) \<subseteq> ?R\<^sup>* `` {s}"
    unfolding getSigAncestors_def
  proof (rule ancestorsLoop_within)
    show "set [] \<union> set [s] \<subseteq> ?R\<^sup>* `` {s}" by simp
    show "\<forall>x \<in> ?R\<^sup>* `` {s}. set (sigParents P x) \<subseteq> ?R\<^sup>* `` {s}"
      by (auto simp: parentEdges_def intro: rtrancl_into_rtrancl)
  qed
  moreover have "?R\<^sup>* `` {s} \<subseteq> set (getSigAncestors P s)"
  proof
    fix t assume "t \<in> ?R\<^sup>* `` {s}"
    then have "(s, t) \<in> ?R\<^sup>*" by simp
    then show "t \<in> set (getSigAncestors P s)"
    proof (induction rule: rtrancl_induct)
      case base
      show ?case using ancestorsLoop_closed [of "[]" P "[s]"]
        by (simp add: getSigAncestors_def)
    next
      case (step y z)
      then have "z \<in> set (sigParents P y)" by (simp add: parentEdges_def)
      with step(3) ancestorsLoop_closed [of "[]" P "[s]"] show ?case
        by (auto simp: getSigAncestors_def)
    qed
  qed
  ultimately show ?thesis
    using ys ancestorsLoop_distinct [of "[]" P "[s]"]
    by (auto simp: getSigAncestors_def step)
qed

theorem getSigAncestors_closure_witness:
  "getSigAncestors diamondProg 3 = [3, 2, 0, 1]
   \<and> getSigAncestors cyclicProg 0 = [0, 1]
   \<and> set [3, 2, 0, 1] = (parentEdges diamondProg)\<^sup>* `` {3}"
proof -
  have d: "getSigAncestors diamondProg 3 = [3, 2, 0, 1]" by code_simp
  have c: "getSigAncestors cyclicProg 0 = [0, 1]" by code_simp
  from getSigAncestors_closure [of diamondProg 3] d c show ?thesis by simp
qed

section \<open>Properties of the type environment\<close>

lemma newMap_map_of: "newMap ps = map_of (rev ps)"
proof -
  have "fold (\<lambda>(node, type) m. m(node \<mapsto> type)) ps m = m ++ map_of (rev ps)" for m
  proof (induction ps arbitrary: m)
    case Nil
    show ?case by simp
  next
    case (Cons p ps)
    obtain n t where p: "p = (n, t)" by (cases p)
    have "fold (\<lambda>(node, type) m. m(node \<mapsto> type)) (p # ps) m
          = fold (\<lambda>(node, type) m. m(node \<mapsto> type)) ps (m(n \<mapsto> t))"
      by (simp add: p)
    also have "\<dots> = m(n \<mapsto> t) ++ map_of (rev ps)"
      by (rule Cons)
    also have "\<dots> = m ++ map_of (rev (p # ps))"
      by (simp add: p map_add_assoc [symmetric])
    finally show ?case .
  qed
  from this [of Map.empty] show ?thesis by (simp add: newMap_def)
qed

text \<open>
  C7. \<^verbatim>\<open>extendWith\<close> on an environment object returns a new object, at another address,
  whose bindings are those of the receiver overridden by the pairs (the last pair of a
  node winning); every lookup in the receiver answers as before the call, also after
  a later \<^verbatim>\<open>set\<close> on the new environment.
\<close>

theorem TypeEnv_extendWith_frame:
  assumes "env < nextEnv h"
    and "TypeEnv_extendWith h env ps = (new, h')"
  shows "(\<forall>n. TypeEnv_lookup h' env n = TypeEnv_lookup h env n)
       \<and> (\<forall>n. TypeEnv_lookup h' new n =
                (case map_of (rev ps) n of
                   Some t \<Rightarrow> Some t
                 | None \<Rightarrow> TypeEnv_lookup h env n))
       \<and> new \<noteq> env
       \<and> (\<forall>m t n. TypeEnv_lookup (TypeEnv_set h' new m t) env n = TypeEnv_lookup h env n)"
  using assms
  by (auto simp: TypeEnv_extendWith_def TypeEnv_new_def TypeEnv_lookup_def TypeEnv_set_def
      newMap_map_of map_add_def Let_def split: option.splits)

theorem TypeEnv_extendWith_frame_witness:
  "(0::nat) < nextEnv (TypeEnv_set emptyHeap 0 5 UnitTTag)
   \<and> TypeEnv_extendWith (TypeEnv_set emptyHeap 0 5 UnitTTag) 0
        [(5, BooleanTTag None), (7, StringTTag None), (7, IntegerTTag None)]
      = (1, snd (TypeEnv_extendWith (TypeEnv_set emptyHeap 0 5 UnitTTag) 0
                  [(5, BooleanTTag None), (7, StringTTag None), (7, IntegerTTag None)]))
   \<and> TypeEnv_lookup (snd (TypeEnv_extendWith (TypeEnv_set emptyHeap 0 5 UnitTTag) 0
                  [(5, BooleanTTag None), (7, StringTTag None), (7, IntegerTTag None)])) 0 5
      = Some UnitTTag
   \<and> TypeEnv_lookup (snd (TypeEnv_extendWith (TypeEnv_set emptyHeap 0 5 UnitTTag) 0
                  [(5, BooleanTTag None), (7, StringTTag None), (7, IntegerTTag None)])) 1 5
      = Some (BooleanTTag None)
   \<and> TypeEnv_lookup (snd (TypeEnv_extendWith (TypeEnv_set emptyHeap 0 5 UnitTTag) 0
                  [(5, BooleanTTag None), (7, StringTTag None), (7, IntegerTTag None)])) 1 7
      = Some (IntegerTTag None)"
proof -
  let ?h = "TypeEnv_set emptyHeap 0 5 UnitTTag"
  let ?ps = "[(5, BooleanTTag None), (7, StringTTag None), (7, IntegerTTag None)]"
  have a: "(0::nat) < nextEnv ?h" by (simp add: TypeEnv_set_def emptyHeap_def)
  have b: "TypeEnv_extendWith ?h 0 ?ps = (1, snd (TypeEnv_extendWith ?h 0 ?ps))"
    by (simp add: TypeEnv_extendWith_def TypeEnv_new_def TypeEnv_set_def emptyHeap_def Let_def)
  have c: "TypeEnv_lookup ?h 0 5 = Some UnitTTag"
    by (simp add: TypeEnv_set_def TypeEnv_lookup_def emptyHeap_def)
  from TypeEnv_extendWith_frame [OF a b] a b c show ?thesis by simp
qed

section \<open>The depth bound does not change what a call returns\<close>

text \<open>A call that returns or throws within some depth does the same within any greater
  depth: the results below do not depend on the bound chosen.\<close>

lemma mapSynth_mono:
  assumes S: "\<And>h env t. syn h env t \<noteq> Inl OutOfFuel \<Longrightarrow> syn' h env t = syn h env t"
  shows "mapSynth syn h env ts \<noteq> Inl OutOfFuel \<Longrightarrow> mapSynth syn' h env ts = mapSynth syn h env ts"
proof (induction ts arbitrary: h)
  case Nil
  show ?case by simp
next
  case (Cons t ts)
  from Cons.prems have d: "syn h env (Some t) \<noteq> Inl OutOfFuel"
    by (auto split: sum.splits)
  show ?case
  proof (cases "syn h env (Some t)")
    case (Inl e)
    with S [OF d] show ?thesis by simp
  next
    case (Inr r)
    obtain ty h1 where r: "r = (ty, h1)" by (cases r)
    from Cons.prems Inr r have "mapSynth syn h1 env ts \<noteq> Inl OutOfFuel"
      by (auto split: sum.splits)
    from Cons.IH [OF this] S [OF d] Inr r show ?thesis by simp
  qed
qed

lemma checkArgs_mono:
  assumes C: "\<And>h env n ty. chk h env n ty \<noteq> Inl OutOfFuel \<Longrightarrow> chk' h env n ty = chk h env n ty"
  shows "checkArgs chk h env pairs tt cp \<noteq> Inl OutOfFuel \<Longrightarrow>
         checkArgs chk' h env pairs tt cp = checkArgs chk h env pairs tt cp"
proof (induction pairs arbitrary: h tt cp)
  case Nil
  show ?case by simp
next
  case (Cons p pairs)
  obtain arg ety where p: "p = (arg, ety)" by (cases p)
  from Cons.prems have d: "chk h env arg ety \<noteq> Inl OutOfFuel"
    by (auto simp: p split: sum.splits)
  show ?case
  proof (cases "chk h env arg ety")
    case (Inl e)
    with C [OF d] show ?thesis by (simp add: p)
  next
    case (Inr r)
    obtain ty h1 where r: "r = (ty, h1)" by (cases r)
    from Cons.prems Inr r p Cons.IH C [OF d] show ?thesis
      by (auto split: if_splits)
  qed
qed


lemma synthRef_mono:
  assumes S: "\<And>h env t. syn h env t \<noteq> Inl OutOfFuel \<Longrightarrow> syn' h env t = syn h env t"
    and d: "synthRef syn h env term v \<noteq> Inl OutOfFuel"
  shows "synthRef syn' h env term v = synthRef syn h env term v"
  using d S by (auto simp: synthRef_def split: option.splits)

lemma synthJoin_mono:
  assumes S: "\<And>h env t. syn h env t \<noteq> Inl OutOfFuel \<Longrightarrow> syn' h env t = syn h env t"
    and d: "synthJoin syn P h env term l r \<noteq> Inl OutOfFuel"
  shows "synthJoin syn' P h env term l r = synthJoin syn P h env term l r"
proof -
  from d have d1: "syn h env (Some l) \<noteq> Inl OutOfFuel"
    by (auto simp: synthJoin_def split: sum.splits)
  show ?thesis
  proof (cases "syn h env (Some l)")
    case (Inl e)
    with S [OF d1] show ?thesis by (simp add: synthJoin_def)
  next
    case (Inr res)
    obtain tl h1 where res: "res = (tl, h1)" by (cases res)
    have "syn' h1 env (Some m) = syn h1 env (Some m)"
      if "nodeAt P r = Ref v" "tl = SigTTag sg" "nodeAt P sg = SigDecl nm ps rels"
        "find (\<lambda>relNode. nodeName P relNode = Some (refText v)) rels = Some m" for v sg nm ps rels m
    proof (rule S)
      from d Inr res that show "syn h1 env (Some m) \<noteq> Inl OutOfFuel"
        by (auto simp: synthJoin_def Let_def split: sum.splits)
    qed
    with S [OF d1] Inr res show ?thesis
      by (auto simp: synthJoin_def Let_def split: AstNode.splits TypeTag.splits option.splits)
  qed
qed

lemma synthParam_mono:
  assumes S: "\<And>h env t. syn h env t \<noteq> Inl OutOfFuel \<Longrightarrow> syn' h env t = syn h env t"
    and d: "synthParam syn h env term c \<noteq> Inl OutOfFuel"
  shows "synthParam syn' h env term c = synthParam syn h env term c"
proof -
  from d have "syn h env (Some c) \<noteq> Inl OutOfFuel"
    by (auto simp: synthParam_def split: sum.splits)
  from S [OF this] show ?thesis by (simp add: synthParam_def)
qed

lemma synthRelation_mono:
  assumes S: "\<And>h env t. syn h env t \<noteq> Inl OutOfFuel \<Longrightarrow> syn' h env t = syn h env t"
    and d: "synthRelation syn P h env term c r \<noteq> Inl OutOfFuel"
  shows "synthRelation syn' P h env term c r = synthRelation syn P h env term c r"
proof (cases "\<exists>a b c'. nodeAt P c = SigDecl a b c'")
  case False
  then show ?thesis by (auto simp: synthRelation_def split: AstNode.splits)
next
  case True
  then obtain a b c' where n: "nodeAt P c = SigDecl a b c'" by blast
  from d n have d1: "syn h env (Some c) \<noteq> Inl OutOfFuel"
    by (auto simp: synthRelation_def split: sum.splits)
  show ?thesis
  proof (cases "syn h env (Some c)")
    case (Inl e)
    with S [OF d1] n show ?thesis by (simp add: synthRelation_def)
  next
    case (Inr res)
    obtain tp h1 where res: "res = (tp, h1)" by (cases res)
    from d n Inr res have "syn h1 env (Some r) \<noteq> Inl OutOfFuel"
      by (auto simp: synthRelation_def split: sum.splits)
    from S [OF this] S [OF d1] n Inr res show ?thesis by (simp add: synthRelation_def)
  qed
qed

lemma functionTTagFromFuncDecl_mono:
  assumes S: "\<And>h env t. syn h env t \<noteq> Inl OutOfFuel \<Longrightarrow> syn' h env t = syn h env t"
    and d: "functionTTagFromFuncDecl syn h env term ts ps \<noteq> Inl OutOfFuel"
  shows "functionTTagFromFuncDecl syn' h env term ts ps = functionTTagFromFuncDecl syn h env term ts ps"
proof -
  from d have "mapSynth syn h env ts \<noteq> Inl OutOfFuel"
    by (auto simp: functionTTagFromFuncDecl_def split: sum.splits)
  from mapSynth_mono [of syn syn', OF S this] show ?thesis
    by (simp add: functionTTagFromFuncDecl_def)
qed

lemma synthFunctionApplication_mono:
  assumes S: "\<And>h env t. syn h env t \<noteq> Inl OutOfFuel \<Longrightarrow> syn' h env t = syn h env t"
    and d: "synthFunctionApplication syn chk h env term f as \<noteq> Inl OutOfFuel"
  shows "synthFunctionApplication syn' chk' h env term f as = synthFunctionApplication syn chk h env term f as"
proof -
  from d have "syn h env (Some f) \<noteq> Inl OutOfFuel"
    by (auto simp: synthFunctionApplication_def split: sum.splits)
  from S [OF this] show ?thesis
    by (auto simp: synthFunctionApplication_def getParameters_def split: sum.splits TypeTag.splits)
qed

lemma inferBinExpr_mono:
  assumes C: "\<And>h env n ty. chk h env n ty \<noteq> Inl OutOfFuel \<Longrightarrow> chk' h env n ty = chk h env n ty"
    and d: "inferBinExpr chk h env term op \<noteq> Inl OutOfFuel"
  shows "inferBinExpr chk' h env term op = inferBinExpr chk h env term op"
  using d C by (auto simp: inferBinExpr_def Let_def split: if_splits)

lemma synthNewNode_mono:
  assumes S: "\<And>h env t. syn h env t \<noteq> Inl OutOfFuel \<Longrightarrow> syn' h env t = syn h env t"
    and C: "\<And>h env n ty. chk h env n ty \<noteq> Inl OutOfFuel \<Longrightarrow> chk' h env n ty = chk h env n ty"
    and d: "synthNewNode syn chk P h env term \<noteq> Inl OutOfFuel"
  shows "synthNewNode syn' chk' P h env term = synthNewNode syn chk P h env term"
proof (cases "nodeAt P term")
  case (Ref v)
  with d have "synthRef syn h env term v \<noteq> Inl OutOfFuel"
    by (auto simp: synthNewNode_def split: sum.splits)
  from synthRef_mono [of syn syn', OF S this] Ref show ?thesis by (simp add: synthNewNode_def)
next
  case (Join l r)
  with d have "synthJoin syn P h env term l r \<noteq> Inl OutOfFuel"
    by (auto simp: synthNewNode_def split: sum.splits)
  from synthJoin_mono [of syn syn', OF S this] Join show ?thesis by (simp add: synthNewNode_def)
next
  case (VarDecl vt v)
  with d have "(case vt of Some x \<Rightarrow> syn h env (Some x) | None \<Rightarrow> syn h env v) \<noteq> Inl OutOfFuel"
    by (auto simp: synthNewNode_def split: sum.splits)
  with S VarDecl show ?thesis by (auto simp: synthNewNode_def split: option.splits)
next
  case (Param nm c)
  with d have "synthParam syn h env term c \<noteq> Inl OutOfFuel"
    by (auto simp: synthNewNode_def split: sum.splits)
  from synthParam_mono [of syn syn', OF S this] Param show ?thesis by (simp add: synthNewNode_def)
next
  case (ParamTypePair p ty)
  with d have "syn h env (Some ty) \<noteq> Inl OutOfFuel"
    by (auto simp: synthNewNode_def split: sum.splits)
  from S [OF this] ParamTypePair show ?thesis by (simp add: synthNewNode_def)
next
  case (Relation nm c r)
  with d have "synthRelation syn P h env term c r \<noteq> Inl OutOfFuel"
    by (auto simp: synthNewNode_def split: sum.splits)
  from synthRelation_mono [of syn syn', OF S this] Relation show ?thesis
    by (simp add: synthNewNode_def)
next
  case (BinExpr op l r)
  with d have "inferBinExpr chk h env term op \<noteq> Inl OutOfFuel"
    by (auto simp: synthNewNode_def split: sum.splits)
  from inferBinExpr_mono [of chk chk', OF C this] BinExpr show ?thesis
    by (simp add: synthNewNode_def)
next
  case (FunDecl ts ps b)
  with d have "functionTTagFromFuncDecl syn h env term ts ps \<noteq> Inl OutOfFuel"
    by (auto simp: synthNewNode_def split: sum.splits)
  from functionTTagFromFuncDecl_mono [of syn syn', OF S this] FunDecl show ?thesis
    by (simp add: synthNewNode_def)
next
  case (FunctionApplication f as)
  with d have "synthFunctionApplication syn chk h env term f as \<noteq> Inl OutOfFuel"
    by (auto simp: synthNewNode_def split: sum.splits)
  from synthFunctionApplication_mono [where syn' = syn' and chk' = chk', OF S this] FunctionApplication
  show ?thesis by (simp add: synthNewNode_def)
next
  case (PredicateDecl ps b)
  show ?thesis
  proof (cases "predicateTTagFromPredDecl P ps")
    case (Inl e)
    with PredicateDecl show ?thesis by (simp add: synthNewNode_def)
  next
    case (Inr pt)
    with d PredicateDecl have "chk h env term pt \<noteq> Inl OutOfFuel"
      by (auto simp: synthNewNode_def split: sum.splits)
    from C [OF this] Inr PredicateDecl show ?thesis by (simp add: synthNewNode_def)
  qed
qed (simp_all add: synthNewNode_def)

lemma checkNode_mono:
  assumes S: "\<And>h env t. syn h env t \<noteq> Inl OutOfFuel \<Longrightarrow> syn' h env t = syn h env t"
    and C: "\<And>h env n ty. chk h env n ty \<noteq> Inl OutOfFuel \<Longrightarrow> chk' h env n ty = chk h env n ty"
    and d: "checkNode syn chk P h env term type \<noteq> Inl OutOfFuel"
  shows "checkNode syn' chk' P h env term type = checkNode syn chk P h env term type"
proof -
  have fallback: ?thesis
    if "checkNode syn chk P h env term type =
          (case syn h env (Some term) of
             Inl e \<Rightarrow> Inl e
           | Inr (termType, h1) \<Rightarrow>
               Inr (if sameTypeAs termType type then type
                    else ErrorTypeTag (Some term) ''Type error'', h1))"
      and "checkNode syn' chk' P h env term type =
          (case syn' h env (Some term) of
             Inl e \<Rightarrow> Inl e
           | Inr (termType, h1) \<Rightarrow>
               Inr (if sameTypeAs termType type then type
                    else ErrorTypeTag (Some term) ''Type error'', h1))"
  proof -
    from d that(1) have "syn h env (Some term) \<noteq> Inl OutOfFuel"
      by (auto split: sum.splits)
    from S [OF this] that show ?thesis by simp
  qed
  show ?thesis
  proof (cases "nodeAt P term")
    case (BinExpr op l r)
    with d have d0: "checkChildrenHaveSameType chk P h env term l r type \<noteq> Inl OutOfFuel"
      by (simp add: checkNode_def)
    then have d1: "chk h env l type \<noteq> Inl OutOfFuel"
      by (auto simp: checkChildrenHaveSameType_def split: sum.splits)
    have "checkChildrenHaveSameType chk' P h env term l r type
          = checkChildrenHaveSameType chk P h env term l r type"
    proof (cases "chk h env l type")
      case (Inl e)
      with C [OF d1] show ?thesis by (simp add: checkChildrenHaveSameType_def)
    next
      case (Inr res)
      obtain tl h1 where res: "res = (tl, h1)" by (cases res)
      from d0 Inr res have "chk h1 env r type \<noteq> Inl OutOfFuel"
        by (auto simp: checkChildrenHaveSameType_def split: sum.splits)
      from C [OF this] C [OF d1] Inr res show ?thesis
        by (simp add: checkChildrenHaveSameType_def)
    qed
    with BinExpr show ?thesis by (simp add: checkNode_def)
  next
    case (FunDecl ts ps b)
    then show ?thesis
      by (auto simp: checkNode_def getParameters_def split: TypeTag.splits)
  next
    case (PredicateDecl ps b)
    then show ?thesis by (simp add: checkNode_def)
  next
    case (IfThenElseExpr c t e)
    with d have d0: "checkIfThenElse syn h env term c t e type \<noteq> Inl OutOfFuel"
      by (simp add: checkNode_def)
    then have d1: "syn h env (Some c) \<noteq> Inl OutOfFuel"
      by (auto simp: checkIfThenElse_def split: sum.splits)
    have "checkIfThenElse syn' h env term c t e type = checkIfThenElse syn h env term c t e type"
    proof (cases "syn h env (Some c)")
      case (Inl x)
      with S [OF d1] show ?thesis by (simp add: checkIfThenElse_def)
    next
      case (Inr res)
      obtain tc h1 where res: "res = (tc, h1)" by (cases res)
      show ?thesis
      proof (cases "isBooleanTTag tc")
        case False
        with S [OF d1] Inr res show ?thesis by (simp add: checkIfThenElse_def)
      next
        case True
        with d0 Inr res have d2: "syn h1 env (Some t) \<noteq> Inl OutOfFuel"
          by (auto simp: checkIfThenElse_def split: sum.splits)
        show ?thesis
        proof (cases "syn h1 env (Some t)")
          case (Inl x)
          with S [OF d1] S [OF d2] Inr res True show ?thesis by (simp add: checkIfThenElse_def)
        next
          case inr2: (Inr res2)
          obtain tt h2 where res2: "res2 = (tt, h2)" by (cases res2)
          show ?thesis
          proof (cases "sameTypeAs tt type")
            case False
            with S [OF d1] S [OF d2] Inr res True inr2 res2 show ?thesis
              by (simp add: checkIfThenElse_def)
          next
            case same: True
            with d0 Inr res True inr2 res2 have "syn h2 env (Some e) \<noteq> Inl OutOfFuel"
              by (auto simp: checkIfThenElse_def split: sum.splits)
            from S [OF this] S [OF d1] S [OF d2] Inr res True inr2 res2 same show ?thesis
              by (simp add: checkIfThenElse_def)
          qed
        qed
      qed
    qed
    with IfThenElseExpr show ?thesis by (simp add: checkNode_def)
  qed (rule fallback; simp add: checkNode_def)+
qed

lemma fuel_step:
  "(\<forall>h env t. synth k P h env t \<noteq> Inl OutOfFuel \<longrightarrow> synth (Suc k) P h env t = synth k P h env t)
   \<and> (\<forall>h env n ty. check k P h env n ty \<noteq> Inl OutOfFuel \<longrightarrow>
         check (Suc k) P h env n ty = check k P h env n ty)"
proof (induction k)
  case 0
  show ?case by simp
next
  case (Suc k)
  from Suc have S: "\<And>h env t. synth k P h env t \<noteq> Inl OutOfFuel \<Longrightarrow> synth (Suc k) P h env t = synth k P h env t"
    and C: "\<And>h env n ty. check k P h env n ty \<noteq> Inl OutOfFuel \<Longrightarrow>
              check (Suc k) P h env n ty = check k P h env n ty"
    by blast+
  have "synth (Suc (Suc k)) P h env t = synth (Suc k) P h env t"
    if d: "synth (Suc k) P h env t \<noteq> Inl OutOfFuel" for h env t
  proof (cases t)
    case None
    then show ?thesis by simp
  next
    case (Some n)
    show ?thesis
    proof (cases "TypeEnv_lookup h env n")
      case (Some existing)
      with \<open>t = Some n\<close> show ?thesis by simp
    next
      case None
      with d \<open>t = Some n\<close> have "synthNewNode (synth k P) (check k P) P h env n \<noteq> Inl OutOfFuel"
        by simp
      from synthNewNode_mono [of "synth k P" "synth (Suc k) P" "check k P" "check (Suc k) P", OF S C this]
        None \<open>t = Some n\<close>
      show ?thesis by simp
    qed
  qed
  moreover have "check (Suc (Suc k)) P h env n ty = check (Suc k) P h env n ty"
    if d: "check (Suc k) P h env n ty \<noteq> Inl OutOfFuel" for h env n ty
  proof -
    from d have "checkNode (synth k P) (check k P) P h env n ty \<noteq> Inl OutOfFuel" by simp
    from checkNode_mono [of "synth k P" "synth (Suc k) P" "check k P" "check (Suc k) P", OF S C this]
    show ?thesis by simp
  qed
  ultimately show ?case by blast
qed

lemma synth_fuel_mono:
  assumes "k \<le> k'" and "synth k P h env t \<noteq> Inl OutOfFuel"
  shows "synth k' P h env t = synth k P h env t"
  using assms
proof (induction k' rule: dec_induct)
  case base
  show ?case ..
next
  case (step j)
  from step.IH [OF step.prems] have eq: "synth j P h env t = synth k P h env t" .
  with step.prems have "synth j P h env t \<noteq> Inl OutOfFuel" by metis
  with fuel_step [of j P] have "synth (Suc j) P h env t = synth j P h env t" by blast
  with eq show ?case by metis
qed

lemma check_fuel_mono:
  assumes "k \<le> k'" and "check k P h env n ty \<noteq> Inl OutOfFuel"
  shows "check k' P h env n ty = check k P h env n ty"
  using assms
proof (induction k' rule: dec_induct)
  case base
  show ?case ..
next
  case (step j)
  from step.IH [OF step.prems] have eq: "check j P h env n ty = check k P h env n ty" .
  with step.prems have "check j P h env n ty \<noteq> Inl OutOfFuel" by metis
  with fuel_step [of j P] have "check (Suc j) P h env n ty = check j P h env n ty" by blast
  with eq show ?case by metis
qed

section \<open>Properties of synthesis and checking\<close>

lemmas eval_defs = numeral_nat synthNewNode_def synthRef_def synthJoin_def synthRelation_def
  synthParam_def synthFunctionApplication_def functionTTagFromFuncDecl_def inferBinExpr_def
  inferTypeAnnot_def checkNode_def checkChildrenHaveSameType_def checkIfThenElse_def
  zip_utils_def getParameters_def nodeAt_def nodeName_def ARITH_OPERATORS_def
  TypeEnv_lookup_def TypeEnv_set_def emptyHeap_def tagOf_def

lemma synth_at_depth:
  "synth k0 P h env t = Inr r \<Longrightarrow> k0 \<le> k \<Longrightarrow> synth k P h env t = Inr r"
  using synth_fuel_mono [of k0 k P h env t] by simp

lemma check_at_depth:
  "check k0 P h env n ty = Inr r \<Longrightarrow> k0 \<le> k \<Longrightarrow> check k P h env n ty = Inr r"
  using check_fuel_mono [of k0 k P h env n ty] by simp

lemma synthNewNode_stores:
  "synthNewNode syn chk P h env term = Inr (t, h') \<Longrightarrow> TypeEnv_lookup h' env term = Some t"
  unfolding synthNewNode_def
  by (auto simp: TypeEnv_lookup_def TypeEnv_set_def split: sum.splits)

text \<open>
  C3. When \<^verbatim>\<open>synth\<close> returns a tag for a node, Error tags included, the environment it
  was called with holds that tag for the node; a second call then returns the same tag
  and leaves the heap as it is, within depth one, that is without any further call of
  \<^verbatim>\<open>synth\<close> or \<^verbatim>\<open>check\<close>.
\<close>

theorem synth_memoizes:
  assumes "synth k P h env (Some n) = Inr (t, h')"
  shows "TypeEnv_lookup h' env n = Some t \<and> synth (Suc k') P h' env (Some n) = Inr (t, h')"
proof -
  from assms obtain j where k: "k = Suc j" by (cases k) auto
  have stored: "TypeEnv_lookup h' env n = Some t"
  proof (cases "TypeEnv_lookup h env n")
    case None
    with assms k have "synthNewNode (synth j P) (check j P) P h env n = Inr (t, h')" by simp
    then show ?thesis by (rule synthNewNode_stores)
  next
    case (Some existing)
    with assms k show ?thesis by simp
  qed
  then show ?thesis by simp
qed

theorem synth_memoizes_witness:
  "synth 2 exampleProg emptyHeap 0 (Some 13)
     = Inr (ErrorTypeTag (Some 13) ''Type of term cannot be inferred'',
            TypeEnv_set emptyHeap 0 13 (ErrorTypeTag (Some 13) ''Type of term cannot be inferred''))
   \<and> TypeEnv_lookup
         (TypeEnv_set emptyHeap 0 13 (ErrorTypeTag (Some 13) ''Type of term cannot be inferred'')) 0 13
     = Some (ErrorTypeTag (Some 13) ''Type of term cannot be inferred'')
   \<and> synth (Suc 0) exampleProg
        (TypeEnv_set emptyHeap 0 13 (ErrorTypeTag (Some 13) ''Type of term cannot be inferred'')) 0
        (Some 13)
     = Inr (ErrorTypeTag (Some 13) ''Type of term cannot be inferred'',
            TypeEnv_set emptyHeap 0 13 (ErrorTypeTag (Some 13) ''Type of term cannot be inferred''))"
proof -
  have run: "synth 2 exampleProg emptyHeap 0 (Some 13)
     = Inr (ErrorTypeTag (Some 13) ''Type of term cannot be inferred'',
            TypeEnv_set emptyHeap 0 13 (ErrorTypeTag (Some 13) ''Type of term cannot be inferred''))"
    by (simp add: numeral_2_eq_2 synthNewNode_def nodeAt_def exampleProg_def TypeEnv_lookup_def
        emptyHeap_def)
  from synth_memoizes [OF run, of 0] run show ?thesis by (simp del: synth.simps check.simps)
qed

lemma synthFunctionApplication_Function_callee:
  "syn h env (Some func) = Inr (FunctionTTag ps returnType, h1) \<Longrightarrow>
   synthFunctionApplication syn chk h env term func args = Inl TypeError"
  by (simp add: synthFunctionApplication_def getParameters_def)

lemma synthFunctionApplication_other_callee:
  "syn h env (Some func) = Inr (calleeType, h1) \<Longrightarrow> \<not> isFunctionTTag calleeType \<Longrightarrow>
   synthFunctionApplication syn chk h env term func args =
     Inr (ErrorTypeTag (Some func)
            ''We expected a function type because of the function application, but this is not a function type'',
          h1)"
  by (cases calleeType) (simp_all add: synthFunctionApplication_def)

text \<open>
  C5, on the code. The callee \<^verbatim>\<open>f\<close> synthesizes to the Function tag
  \<^verbatim>\<open>(n: Integer) => Boolean\<close>. The application rule then calls \<^verbatim>\<open>getParameters\<close> on that
  tag, which no class declares: \<^verbatim>\<open>f(1)\<close>, \<^verbatim>\<open>f(true)\<close> and \<^verbatim>\<open>f(1, true)\<close> all throw a
  \<^verbatim>\<open>TypeError\<close>, before any argument is checked, where the claim has Boolean, the Error
  of the argument, and Boolean. Only the case of a callee that is not a function is as
  the claim has it: \<^verbatim>\<open>1(true)\<close> has an Error tag at the callee.
\<close>

theorem synth_FunctionApplication_throws:
  "tagOf (synth 4 exampleProg emptyHeap 0 (Some 5))
     = Inr (FunctionTTag [(3, IntegerTTag None)] (BooleanTTag None))
   \<and> synth 5 exampleProg emptyHeap 0 (Some 9) = Inl TypeError
   \<and> synth 5 exampleProg emptyHeap 0 (Some 7) = Inl TypeError
   \<and> synth 5 exampleProg emptyHeap 0 (Some 14) = Inl TypeError
   \<and> tagOf (synth 3 exampleProg emptyHeap 0 (Some 15))
       = Inr (ErrorTypeTag (Some 8)
                ''We expected a function type because of the function application, but this is not a function type'')"
proof -
  have a: "tagOf (synth 4 exampleProg emptyHeap 0 (Some 5))
     = Inr (FunctionTTag [(3, IntegerTTag None)] (BooleanTTag None))"
    by (simp add: eval_defs exampleProg_def)
  have b: "synth 5 exampleProg emptyHeap 0 (Some 9) = Inl TypeError"
    by (simp add: eval_defs exampleProg_def)
  have c: "synth 5 exampleProg emptyHeap 0 (Some 7) = Inl TypeError"
    by (simp add: eval_defs exampleProg_def)
  have d: "synth 5 exampleProg emptyHeap 0 (Some 14) = Inl TypeError"
    by (simp add: eval_defs exampleProg_def)
  have e: "tagOf (synth 3 exampleProg emptyHeap 0 (Some 15))
       = Inr (ErrorTypeTag (Some 8)
                ''We expected a function type because of the function application, but this is not a function type'')"
    by (simp add: eval_defs exampleProg_def)
  from a b c d e show ?thesis by simp
qed



text \<open>
  C8, as stated, fails. Checking the literal \<^verbatim>\<open>1\<close>, which takes the fallback and
  synthesizes to Integer, against Boolean returns an Error tag whose message is
  \<^verbatim>\<open>Type error\<close>: it names neither Integer nor Boolean. Checking \<^verbatim>\<open>1 + 2\<close> against
  Boolean takes the rule for binary expressions, and its message names Boolean and the
  two Error tags of the operands, not Integer.
\<close>

theorem check_fallback_message_counterexample:
  "\<not> hasCheckRule (nodeAt exampleProg 8)
   \<and> tagOf (synth 1 exampleProg emptyHeap 0 (Some 8)) = Inr (IntegerTTag (Some 8))
   \<and> toString exampleProg (IntegerTTag (Some 8)) = ''Integer''
   \<and> toString exampleProg (BooleanTTag None) = ''Boolean''
   \<and> \<not> sameTypeAs (IntegerTTag (Some 8)) (BooleanTTag None)
   \<and> tagOf (check 2 exampleProg emptyHeap 0 8 (BooleanTTag None))
       = Inr (ErrorTypeTag (Some 8) ''Type error'')
   \<and> \<not> sublist ''Integer'' ''Type error''
   \<and> \<not> sublist ''Boolean'' ''Type error''
   \<and> tagOf (check 3 exampleProg emptyHeap 0 11 (BooleanTTag None))
       = Inr (ErrorTypeTag (Some 11)
               ''Type error in binary expression. Expected type to be Boolean, but got Error: Type error and Error: Type error'')
   \<and> \<not> sublist ''Integer''
         ''Type error in binary expression. Expected type to be Boolean, but got Error: Type error and Error: Type error''"
proof -
  have a: "\<not> hasCheckRule (nodeAt exampleProg 8)" by (simp add: nodeAt_def exampleProg_def)
  have b: "tagOf (synth 1 exampleProg emptyHeap 0 (Some 8)) = Inr (IntegerTTag (Some 8))"
    by (simp add: eval_defs exampleProg_def)
  have c: "tagOf (check 2 exampleProg emptyHeap 0 8 (BooleanTTag None))
       = Inr (ErrorTypeTag (Some 8) ''Type error'')"
    by (simp add: eval_defs exampleProg_def)
  have d: "\<not> sublist ''Integer'' ''Type error''" "\<not> sublist ''Boolean'' ''Type error''"
    by code_simp+
  have e: "tagOf (check 3 exampleProg emptyHeap 0 11 (BooleanTTag None))
       = Inr (ErrorTypeTag (Some 11)
               ''Type error in binary expression. Expected type to be Boolean, but got Error: Type error and Error: Type error'')"
    by (simp add: eval_defs exampleProg_def)
  have f: "\<not> sublist ''Integer''
         ''Type error in binary expression. Expected type to be Boolean, but got Error: Type error and Error: Type error''"
    by code_simp
  from a b c d e f show ?thesis by simp
qed

text \<open>
  C8, amended. In the fallback of \<^verbatim>\<open>check\<close> (a node kind without a rule of its own),
  when the synthesized type is not the same type as the expected one, the call returns
  an Error tag at the checked node whose message is the fixed text \<^verbatim>\<open>Type error\<close>,
  and leaves the heap as the synthesis left it.
\<close>

theorem check_fallback_mismatch:
  assumes "\<not> hasCheckRule (nodeAt P term)"
    and "synth k0 P h env (Some term) = Inr (termType, h1)"
    and "k0 \<le> k"
    and "\<not> sameTypeAs termType type"
  shows "check (Suc k) P h env term type = Inr (ErrorTypeTag (Some term) ''Type error'', h1)"
  using assms(1,4) synth_at_depth [OF assms(2,3)]
  by (cases "nodeAt P term") (simp_all add: checkNode_def)

theorem check_fallback_mismatch_witness:
  "\<not> hasCheckRule (nodeAt exampleProg 8)
   \<and> synth 1 exampleProg emptyHeap 0 (Some 8)
       = Inr (IntegerTTag (Some 8), TypeEnv_set emptyHeap 0 8 (IntegerTTag (Some 8)))
   \<and> \<not> sameTypeAs (IntegerTTag (Some 8)) (BooleanTTag None)
   \<and> check 2 exampleProg emptyHeap 0 8 (BooleanTTag None)
       = Inr (ErrorTypeTag (Some 8) ''Type error'', TypeEnv_set emptyHeap 0 8 (IntegerTTag (Some 8)))"
proof -
  have a: "\<not> hasCheckRule (nodeAt exampleProg 8)" by (simp add: nodeAt_def exampleProg_def)
  have b: "synth 1 exampleProg emptyHeap 0 (Some 8)
       = Inr (IntegerTTag (Some 8), TypeEnv_set emptyHeap 0 8 (IntegerTTag (Some 8)))"
    by (simp add: synthNewNode_def nodeAt_def exampleProg_def TypeEnv_lookup_def emptyHeap_def)
  have c: "\<not> sameTypeAs (IntegerTTag (Some 8)) (BooleanTTag None)" by simp
  have two: "(2::nat) = Suc 1" by simp
  have le: "(1::nat) \<le> 1" by simp
  from check_fallback_mismatch [OF a b le c] a b c show ?thesis
    unfolding two by (simp del: synth.simps check.simps)
qed

text \<open>
  C1, on the code. \<^verbatim>\<open>S\<close> has the ancestor \<^verbatim>\<open>P\<close>, which declares the relation \<^verbatim>\<open>r\<close> with
  relatum Integer, and the scope provider puts \<^verbatim>\<open>r\<close> in scope for the right-hand side
  of a join on an \<^verbatim>\<open>S\<close>. \<^verbatim>\<open>synthJoin\<close> looks among the relations of \<^verbatim>\<open>S\<close> alone: for
  \<^verbatim>\<open>x\<close> of type \<^verbatim>\<open>S\<close> the join of \<^verbatim>\<open>x\<close> and \<^verbatim>\<open>r\<close> has an Error tag, where the same join on
  \<^verbatim>\<open>y\<close> of type \<^verbatim>\<open>P\<close> has the relatum type. The tag of \<^verbatim>\<open>r\<close> is owned by \<^verbatim>\<open>P\<close>, and
  \<^verbatim>\<open>joinOnLeft\<close> answers \<^verbatim>\<open>null\<close> for it on an \<^verbatim>\<open>S\<close>.
\<close>

theorem synthJoin_inherited_relation_not_found:
  "getSigAncestors inheritProg 3 = [3, 0]
   \<and> scopeSigMembers inheritProg 3 = [1]
   \<and> nodeName inheritProg 1 = Some ''r''
   \<and> tagOf (synth 6 inheritProg emptyHeap 0 (Some 6)) = Inr (SigTTag 3)
   \<and> tagOf (synth 6 inheritProg emptyHeap 0 (Some 8))
       = Inr (ErrorTypeTag (Some 8) ''Relatum r not found in S'')
   \<and> tagOf (synth 6 inheritProg emptyHeap 0 (Some 12)) = Inr (IntegerTTag None)
   \<and> tagOf (synth 6 inheritProg emptyHeap 0 (Some 1)) = Inr (RelationTTag 0 1 0 (IntegerTTag None))
   \<and> joinOnLeft (RelationTTag 0 1 0 (IntegerTTag None)) (SigTTag 3) = None"
proof -
  have a: "getSigAncestors inheritProg 3 = [3, 0]" by code_simp
  have b: "scopeSigMembers inheritProg 3 = [1]" by code_simp
  have c: "nodeName inheritProg 1 = Some ''r''" by (simp add: nodeName_def nodeAt_def inheritProg_def)
  have d: "tagOf (synth 6 inheritProg emptyHeap 0 (Some 6)) = Inr (SigTTag 3)"
    by (simp add: eval_defs inheritProg_def)
  have e: "tagOf (synth 6 inheritProg emptyHeap 0 (Some 8))
       = Inr (ErrorTypeTag (Some 8) ''Relatum r not found in S'')"
    by (simp add: eval_defs inheritProg_def)
  have f: "tagOf (synth 6 inheritProg emptyHeap 0 (Some 12)) = Inr (IntegerTTag None)"
    by (simp add: eval_defs inheritProg_def)
  have g: "tagOf (synth 6 inheritProg emptyHeap 0 (Some 1))
       = Inr (RelationTTag 0 1 0 (IntegerTTag None))"
    by (simp add: eval_defs inheritProg_def)
  from a b c d e f g show ?thesis by simp
qed

end
